theory Spec2Isabelle
  imports Main "HOL-Library.Word"
begin

section \<open>Preflight checks of pkg/util/kubernetes/kubeadm/app/preflight/checks.go\<close>

subsection \<open>Strings and the ignore set\<close>

text \<open>
  A Go string is a byte sequence, here a \<^typ>\<open>string\<close>. \<open>strings.ToLower\<close> is
  embedded on its ASCII path: the bytes \<open>A\<close> .. \<open>Z\<close> are moved to \<open>a\<close> .. \<open>z\<close>
  and every other byte is kept. Check names and ignore tokens are ASCII labels.
\<close>

definition isUpperByte :: "char \<Rightarrow> bool" where
  "isUpperByte c = (65 \<le> (of_char c :: nat) \<and> (of_char c :: nat) \<le> 90)"

definition toLowerByte :: "char \<Rightarrow> char" where
  "toLowerByte c = (if isUpperByte c then char_of ((of_char c :: nat) + 32) else c)"

definition ToLower :: "string \<Rightarrow> string" where
  "ToLower s = map toLowerByte s"


text \<open>
  \<open>sets.String\<close> is a set of strings; \<open>s.Has(x)\<close> is membership.
  \<open>setHasItemOrAll\<close> (lines 749-754) lowercases the item, never the set.
\<close>

definition setHasItemOrAll :: "string set \<Rightarrow> string \<Rightarrow> bool" where
  "setHasItemOrAll s item =
     (if ''all'' \<in> s \<or> ToLower item \<in> s then True else False)"

subsection \<open>The Checker interface and the Error struct\<close>

text \<open>
  RunChecks calls \<open>Name()\<close> and \<open>Check()\<close> of every checker exactly once. A checker
  is represented by the label \<open>Name()\<close> returns and by the pair
  \<open>(warnings, errorList)\<close> which that one call of \<open>Check()\<close> returns. The type
  \<open>'e\<close> is Go's \<open>error\<close>; RunChecks reads an error only through its \<open>Error()\<close>
  text, which is passed as the function \<open>errText\<close>.
\<close>

record 'e Checker =
  Name :: string
  Check :: "'e list \<times> 'e list"

record Error =
  Msg :: string

text \<open>\<open>(*Error).Error\<close>, line 53.\<close>

definition Error_Error :: "Error \<Rightarrow> string" where
  "Error_Error e =
     ''[preflight] Some fatal errors occurred:'' @ [CHR 0x0A] @ Msg e @
     ''[preflight] If you know what you are doing, you can make a check non-fatal with `--ignore-preflight-errors=...`''"

subsection \<open>RunChecks\<close>

text \<open>The two format strings of lines 736 and 739.\<close>

definition warningLine :: "string \<Rightarrow> string \<Rightarrow> string" where
  "warningLine name w = [CHR 0x09] @ ''[WARNING '' @ name @ '']: '' @ w @ [CHR 0x0A]"

definition errorLine :: "string \<Rightarrow> string \<Rightarrow> string" where
  "errorLine name i = [CHR 0x09] @ ''[ERROR '' @ name @ '']: '' @ i @ [CHR 0x0A]"

text \<open>
  The loop of line 735 appends one line per warning to the writer \<open>ww\<close>; the loop of
  line 738 appends one line per error to \<open>errsBuffer\<close>.
\<close>

primrec writeWarnings :: "('e \<Rightarrow> string) \<Rightarrow> string \<Rightarrow> 'e list \<Rightarrow> string \<Rightarrow> string" where
  "writeWarnings errText name [] ww = ww"
| "writeWarnings errText name (w # warnings) ww =
     writeWarnings errText name warnings (ww @ warningLine name (errText w))"

primrec writeErrors :: "('e \<Rightarrow> string) \<Rightarrow> string \<Rightarrow> 'e list \<Rightarrow> string \<Rightarrow> string" where
  "writeErrors errText name [] errsBuffer = errsBuffer"
| "writeErrors errText name (i # errs) errsBuffer =
     writeErrors errText name errs (errsBuffer @ errorLine name (errText i))"

text \<open>
  Lines 729-733: the severity of the errors of an ignored check is decreased.
\<close>

definition downgrade :: "string set \<Rightarrow> string \<Rightarrow> 'e list \<times> 'e list \<Rightarrow> 'e list \<times> 'e list" where
  "downgrade ignorePreflightErrors name r =
     (case r of (warnings, errs) \<Rightarrow>
        if setHasItemOrAll ignorePreflightErrors name
        then (warnings @ errs, [])
        else (warnings, errs))"

text \<open>One iteration of the loop of line 725, on the state \<open>(ww, errsBuffer)\<close>.\<close>

definition runCheck ::
  "('e \<Rightarrow> string) \<Rightarrow> string set \<Rightarrow> 'e Checker \<Rightarrow> string \<times> string \<Rightarrow> string \<times> string" where
  "runCheck errText ignorePreflightErrors c st =
     (case st of (ww, errsBuffer) \<Rightarrow>
        let name = Name c in
        case downgrade ignorePreflightErrors name (Check c) of (warnings, errs) \<Rightarrow>
          (writeWarnings errText name warnings ww,
           writeErrors errText name errs errsBuffer))"

primrec runLoop ::
  "('e \<Rightarrow> string) \<Rightarrow> string set \<Rightarrow> 'e Checker list \<Rightarrow> string \<times> string \<Rightarrow> string \<times> string" where
  "runLoop errText ignorePreflightErrors [] st = st"
| "runLoop errText ignorePreflightErrors (c # checks) st =
     runLoop errText ignorePreflightErrors checks (runCheck errText ignorePreflightErrors c st)"

text \<open>
  RunChecks (lines 722-746) returns the error (\<open>None\<close> is nil) and the writer as the
  run left it.
\<close>

definition RunChecks ::
  "('e \<Rightarrow> string) \<Rightarrow> 'e Checker list \<Rightarrow> string \<Rightarrow> string set \<Rightarrow> Error option \<times> string" where
  "RunChecks errText checks ww ignorePreflightErrors =
     (case runLoop errText ignorePreflightErrors checks (ww, []) of (ww', errsBuffer) \<Rightarrow>
        (if length errsBuffer > 0 then Some \<lparr>Msg = errsBuffer\<rparr> else None, ww'))"


text \<open>The text one check contributes to the writer and to the buffer.\<close>

definition warningText :: "('e \<Rightarrow> string) \<Rightarrow> string set \<Rightarrow> 'e Checker \<Rightarrow> string" where
  "warningText errText ig c =
     concat (map (\<lambda>w. warningLine (Name c) (errText w)) (fst (downgrade ig (Name c) (Check c))))"

definition errorText :: "('e \<Rightarrow> string) \<Rightarrow> string set \<Rightarrow> 'e Checker \<Rightarrow> string" where
  "errorText errText ig c =
     concat (map (\<lambda>i. errorLine (Name c) (errText i)) (snd (downgrade ig (Name c) (Check c))))"

section \<open>The checks\<close>

subsection \<open>Error values\<close>

text \<open>
  The checks build their findings with \<open>errors.New\<close>, \<open>errors.Errorf\<close> and
  \<open>errors.Wrapf\<close> of github.com/pkg/errors. An error value is kept as the call that
  made it: the format string with its arguments, and for a wrapped error its cause.
  An argument is a string or a byte slice (\<open>%s\<close>, \<open>%q\<close>), an integer (\<open>%d\<close>) or a
  slice of integers (\<open>%v\<close>).
\<close>

datatype arg = AStr string | AInt int | AInts "int list"

datatype error =
    New string
  | Errorf string "arg list"
  | Wrapf error string "arg list"

subsection \<open>ServiceCheck and FirewalldCheck\<close>

text \<open>
  The interface \<open>initsystem.InitSystem\<close> is the record of the methods the two checks
  call. The result of \<open>initsystem.GetInitSystem()\<close> is a parameter of the checks:
  \<open>Inl err\<close> when no supported init system is detected.
\<close>

record InitSystem =
  EnableCommand :: "string \<Rightarrow> string"
  ServiceExists :: "string \<Rightarrow> bool"
  ServiceIsEnabled :: "string \<Rightarrow> bool"
  ServiceIsActive :: "string \<Rightarrow> bool"

text \<open>
  The struct ServiceCheck, lines 91-95. Its field \<open>Label\<close> is read by \<open>Name()\<close> only
  and is left out.
\<close>

record ServiceCheck =
  Service :: string
  CheckIfActive :: bool

text \<open>\<open>ServiceCheck.Check\<close>, lines 106-130.\<close>

definition ServiceCheck_Check ::
  "error + InitSystem \<Rightarrow> ServiceCheck \<Rightarrow> error list \<times> error list" where
  "ServiceCheck_Check GetInitSystem sc =
     (case GetInitSystem of
        Inl err \<Rightarrow> ([err], [])
      | Inr initSystem \<Rightarrow>
          if \<not> ServiceExists initSystem (Service sc)
          then ([Errorf ''%s service does not exist'' [AStr (Service sc)]], [])
          else
            let warnings =
                  (if \<not> ServiceIsEnabled initSystem (Service sc)
                   then [] @ [Errorf (''%s service is not enabled, please run '' @ [CHR 0x27] @ ''%s'' @ [CHR 0x27])
                                [AStr (Service sc), AStr (EnableCommand initSystem (Service sc))]]
                   else []);
                errorList =
                  (if CheckIfActive sc \<and> \<not> ServiceIsActive initSystem (Service sc)
                   then [] @ [Errorf (''%s service is not active, please run '' @ [CHR 0x27]
                                       @ ''systemctl start %s.service'' @ [CHR 0x27])
                                [AStr (Service sc), AStr (Service sc)]]
                   else [])
            in (warnings, errorList))"

text \<open>The struct FirewalldCheck, lines 134-136, and \<open>FirewalldCheck.Check\<close>, lines 144-162.\<close>

record FirewalldCheck =
  ports :: "int list"

definition FirewalldCheck_Check ::
  "error + InitSystem \<Rightarrow> FirewalldCheck \<Rightarrow> error list \<times> error list" where
  "FirewalldCheck_Check GetInitSystem fc =
     (case GetInitSystem of
        Inl err \<Rightarrow> ([err], [])
      | Inr initSystem \<Rightarrow>
          if \<not> ServiceExists initSystem ''firewalld'' then ([], [])
          else if ServiceIsActive initSystem ''firewalld''
          then ([Errorf ''firewalld is active, please ensure ports %v are open or your cluster may not function correctly''
                   [AInts (ports fc)]], [])
          else ([], []))"

subsection \<open>FileContentCheck\<close>

text \<open>
  An open file is the byte sequence it holds and, when reading it fails, the offset at
  which the read fails and the error of that read. \<open>os.Open\<close> is a parameter of the
  check: a function from the path to the open file or to the error.
\<close>

record File =
  data :: string
  fault :: "(nat \<times> error) option"

text \<open>
  \<open>io.Copy(buf, io.LimitReader(f, n))\<close>: the limited reader hands over the bytes of
  \<open>f\<close> until \<open>n\<close> bytes are read or the file ends, and reads no further; the copy fails
  when a failing read is reached before that.
\<close>

definition copyLimited :: "File \<Rightarrow> nat \<Rightarrow> error + string" where
  "copyLimited f n =
     (case fault f of
        Some (k, err) \<Rightarrow>
          if k < n \<and> k \<le> length (data f) then Inl err else Inr (take n (data f))
      | None \<Rightarrow> Inr (take n (data f)))"

text \<open>
  The struct FileContentCheck, lines 290-294 (\<open>Label\<close> is read by \<open>Name()\<close> only and
  is left out), and \<open>FileContentCheck.Check\<close>, lines 305-326.
\<close>

record FileContentCheck =
  Path :: string
  Content :: string

definition FileContentCheck_Check ::
  "(string \<Rightarrow> error + File) \<Rightarrow> FileContentCheck \<Rightarrow> error list \<times> error list" where
  "FileContentCheck_Check Open fcc =
     (case Open (Path fcc) of
        Inl err \<Rightarrow> ([], [Errorf ''%s does not exist'' [AStr (Path fcc)]])
      | Inr f \<Rightarrow>
          (case copyLimited f (length (Content fcc)) of
             Inl err \<Rightarrow> ([], [Errorf ''%s could not be read'' [AStr (Path fcc)]])
           | Inr buf \<Rightarrow>
               if buf \<noteq> Content fcc
               then ([], [Errorf ''%s contents are not set to %s'' [AStr (Path fcc), AStr (Content fcc)]])
               else ([], [])))"

subsection \<open>ImagePullCheck\<close>

text \<open>
  The interface \<open>utilruntime.ContainerRuntime\<close> is the record of the two methods the
  check calls. Pulling an image changes the container runtime, so each method takes
  the state \<open>'r\<close> of the runtime and returns it. \<open>ImageExists\<close> returns
  \<open>(ret, err)\<close>, and \<open>None\<close> is the nil error.
\<close>

record 'r ContainerRuntime =
  ImageExists :: "string \<Rightarrow> 'r \<Rightarrow> (bool \<times> error option) \<times> 'r"
  PullImage :: "string \<Rightarrow> 'r \<Rightarrow> error option \<times> 'r"

text \<open>The three values of \<open>v1.PullPolicy\<close>, a string type.\<close>

definition PullAlways :: string where "PullAlways = ''Always''"
definition PullNever :: string where "PullNever = ''Never''"
definition PullIfNotPresent :: string where "PullIfNotPresent = ''IfNotPresent''"

record 'r ImagePullCheck =
  runtime :: "'r ContainerRuntime"
  imageList :: "string list"
  imagePullPolicy :: string

text \<open>
  Lines 679-682, the body of the case \<open>v1.PullAlways\<close>. The loop variable \<open>image\<close>
  of the source is written \<open>img\<close>.
\<close>

definition pullImage ::
  "'r ContainerRuntime \<Rightarrow> string \<Rightarrow> error list \<Rightarrow> 'r \<Rightarrow> error list \<times> 'r" where
  "pullImage rt img errorList r =
     (case PullImage rt img r of
        (Some err, r') \<Rightarrow> (errorList @ [Wrapf err ''failed to pull image %s'' [AStr img]], r')
      | (None, r') \<Rightarrow> (errorList, r'))"

text \<open>
  The loop of lines 663-688 over the images that are left, with \<open>errorList\<close> as it
  stands and the state of the runtime. The case \<open>v1.PullIfNotPresent\<close> falls through
  to the body of \<open>v1.PullAlways\<close>; the default case returns from the check.
\<close>

fun checkImages ::
  "'r ContainerRuntime \<Rightarrow> string \<Rightarrow> string list \<Rightarrow> error list \<Rightarrow> 'r
     \<Rightarrow> (error list \<times> error list) \<times> 'r" where
  "checkImages rt policy [] errorList r = (([], errorList), r)"
| "checkImages rt policy (img # images) errorList r =
     (if policy = PullNever then checkImages rt policy images errorList r
      else if policy = PullIfNotPresent then
        (case ImageExists rt img r of
           ((ret, err), r1) \<Rightarrow>
             if ret \<and> err = None then checkImages rt policy images errorList r1
             else
               let errorList1 =
                     (case err of
                        Some e \<Rightarrow> errorList @ [Wrapf e ''failed to check if image %s exists'' [AStr img]]
                      | None \<Rightarrow> errorList)
               in (case pullImage rt img errorList1 r1 of
                     (errorList2, r2) \<Rightarrow> checkImages rt policy images errorList2 r2))
      else if policy = PullAlways then
        (case pullImage rt img errorList r of
           (errorList1, r1) \<Rightarrow> checkImages rt policy images errorList1 r1)
      else (([], errorList @ [Errorf ''unsupported pull policy %q'' [AStr policy]]), r))"

text \<open>\<open>ImagePullCheck.Check\<close>, lines 660-690.\<close>

definition ImagePullCheck_Check ::
  "'r ImagePullCheck \<Rightarrow> 'r \<Rightarrow> (error list \<times> error list) \<times> 'r" where
  "ImagePullCheck_Check ipc r =
     checkImages (runtime ipc) (imagePullPolicy ipc) (imageList ipc) [] r"

text \<open>
  The claim's account of one image, to compare the loop with: the findings of that
  image and the runtime after it.
\<close>

definition pullFindings :: "string \<Rightarrow> error option \<Rightarrow> error list" where
  "pullFindings img perr =
     (case perr of Some e \<Rightarrow> [Wrapf e ''failed to pull image %s'' [AStr img]] | None \<Rightarrow> [])"

definition existsFindings :: "string \<Rightarrow> error option \<Rightarrow> error list" where
  "existsFindings img qerr =
     (case qerr of Some e \<Rightarrow> [Wrapf e ''failed to check if image %s exists'' [AStr img]] | None \<Rightarrow> [])"

definition claimedImageStep ::
  "'r ContainerRuntime \<Rightarrow> string \<Rightarrow> string \<Rightarrow> 'r \<Rightarrow> error list \<times> 'r" where
  "claimedImageStep rt policy img r =
     (if policy = PullNever then ([], r)
      else if policy = PullIfNotPresent then
        (let q = ImageExists rt img r in
         if snd (fst q) = None \<and> fst (fst q) then ([], snd q)
         else (let p = PullImage rt img (snd q)
               in (existsFindings img (snd (fst q)) @ pullFindings img (fst p), snd p)))
      else (let p = PullImage rt img r in (pullFindings img (fst p), snd p)))"

primrec claimedImageRun ::
  "'r ContainerRuntime \<Rightarrow> string \<Rightarrow> string list \<Rightarrow> 'r \<Rightarrow> error list \<times> 'r" where
  "claimedImageRun rt policy [] r = ([], r)"
| "claimedImageRun rt policy (img # images) r =
     (let s = claimedImageStep rt policy img r;
          t = claimedImageRun rt policy images (snd s)
      in (fst s @ fst t, snd t))"

subsection \<open>KubernetesVersionCheck\<close>









subsection \<open>Semantic versions\<close>

text \<open>
  The parser and the order of versions belong to k8s.io/apimachinery, which is not part of
  the sources. The definitions of this subsection are modelled from the specification,
  which speaks of semantic versions and of a semantic-version parser, and from the comment
  of lines 568-571 on the precedence of pre-releases.
\<close>






text \<open>
  Modelled from the spec: the fields of a string between the occurrences of a separator
  (\<open>strings.Split\<close> with a separator of one byte).
\<close>

fun splitOn :: "char \<Rightarrow> string \<Rightarrow> string list" where
  "splitOn sep [] = [[]]"
| "splitOn sep (c # cs) =
     (if c = sep then [] # splitOn sep cs
      else (case splitOn sep cs of x # xs \<Rightarrow> (c # x) # xs | [] \<Rightarrow> [[c]]))"















section \<open>Properties of the orchestrator\<close>

subsection \<open>The loops in closed form\<close>

lemma writeWarnings_concat:
  "writeWarnings errText name ws ww = ww @ concat (map (\<lambda>w. warningLine name (errText w)) ws)"
  by (induction ws arbitrary: ww) simp_all

lemma writeErrors_concat:
  "writeErrors errText name es buf = buf @ concat (map (\<lambda>i. errorLine name (errText i)) es)"
  by (induction es arbitrary: buf) simp_all

lemma runCheck_eq:
  "runCheck errText ig c (ww, buf) = (ww @ warningText errText ig c, buf @ errorText errText ig c)"
  by (simp add: runCheck_def Let_def warningText_def errorText_def writeWarnings_concat
      writeErrors_concat split: prod.splits)

lemma runLoop_eq:
  "runLoop errText ig checks (ww, buf) =
     (ww @ concat (map (warningText errText ig) checks),
      buf @ concat (map (errorText errText ig) checks))"
  by (induction checks arbitrary: ww buf) (simp_all add: runCheck_eq)

lemma errorLine_nonempty: "errorLine name i \<noteq> []"
  by (simp add: errorLine_def)

lemma errorText_empty_iff:
  "errorText errText ig c = [] \<longleftrightarrow> snd (downgrade ig (Name c) (Check c)) = []"
  by (cases "snd (downgrade ig (Name c) (Check c))")
     (simp_all add: errorText_def errorLine_nonempty)

lemma buffer_empty_iff:
  "snd (runLoop errText ig checks (ww, [])) = [] \<longleftrightarrow>
     (\<forall>c \<in> set checks. snd (downgrade ig (Name c) (Check c)) = [])"
  by (simp add: runLoop_eq errorText_empty_iff)

lemma RunChecks_eq:
  "RunChecks errText checks ww ig =
     (if concat (map (errorText errText ig) checks) = [] then None
      else Some \<lparr>Msg = concat (map (errorText errText ig) checks)\<rparr>,
      ww @ concat (map (warningText errText ig) checks))"
  by (simp add: RunChecks_def runLoop_eq)




subsection \<open>Claims\<close>

text \<open>
  C1. RunChecks returns a non-nil error if and only if, after the downgrade of
  ignored checks, at least one check has a non-empty errors sequence; otherwise it
  returns nil, whatever the number of warnings.
\<close>

theorem RunChecks_error_iff:
  "fst (RunChecks errText checks ww ig) \<noteq> None \<longleftrightarrow>
     (\<exists>c \<in> set checks. snd (downgrade ig (Name c) (Check c)) \<noteq> [])"
  by (simp add: RunChecks_eq errorText_empty_iff)

theorem RunChecks_error_iff_witness:
  "fst (RunChecks id
        [\<lparr>Name = ''Swap'', Check = ([''w''], [''swap is on''])\<rparr>,
         \<lparr>Name = ''NumCPU'', Check = ([], [''too few CPUs''])\<rparr>] [] {''swap''}) \<noteq> None
   \<and> fst (RunChecks id
        [\<lparr>Name = ''Swap'', Check = ([''w''], [''swap is on''])\<rparr>] [] {''swap''}) = None"
proof -
  have "\<exists>c \<in> set [\<lparr>Name = ''Swap'', Check = ([''w''], [''swap is on''])\<rparr>,
         \<lparr>Name = ''NumCPU'', Check = ([], [''too few CPUs''])\<rparr>].
        snd (downgrade {''swap''} (Name c) (Check c)) \<noteq> []"
    by code_simp
  moreover have "\<not> (\<exists>c \<in> set [\<lparr>Name = ''Swap'', Check = ([''w''], [''swap is on''])\<rparr>].
        snd (downgrade {''swap''} (Name c) (Check c)) \<noteq> ([] :: string list))"
    by code_simp
  ultimately show ?thesis
    using RunChecks_error_iff [of id
        "[\<lparr>Name = ''Swap'', Check = ([''w''], [''swap is on''])\<rparr>,
          \<lparr>Name = ''NumCPU'', Check = ([], [''too few CPUs''])\<rparr>]" "[]" "{''swap''}"]
      RunChecks_error_iff [of id
        "[\<lparr>Name = ''Swap'', Check = ([''w''], [''swap is on''])\<rparr>]" "[]" "{''swap''}"]
    by blast
qed



text \<open>
  C3. Every warning that is left after the downgrade is written to the writer as the
  line \<open>\t[WARNING name]: message\n\<close>, in the order of the checks and, within a check,
  in the order the check gave; every error that is left is appended to the one buffer
  of the run as the line \<open>\t[ERROR name]: message\n\<close>, in the same order; the buffer
  is the message of the returned error.
\<close>

theorem RunChecks_lines:
  "snd (RunChecks errText checks ww ig) =
     ww @ concat (map (\<lambda>c. concat (map
            (\<lambda>w. [CHR 0x09] @ ''[WARNING '' @ Name c @ '']: '' @ errText w @ [CHR 0x0A])
            (fst (downgrade ig (Name c) (Check c))))) checks)
   \<and> snd (runLoop errText ig checks (ww, [])) =
     concat (map (\<lambda>c. concat (map
            (\<lambda>i. [CHR 0x09] @ ''[ERROR '' @ Name c @ '']: '' @ errText i @ [CHR 0x0A])
            (snd (downgrade ig (Name c) (Check c))))) checks)
   \<and> fst (RunChecks errText checks ww ig) =
     (if snd (runLoop errText ig checks (ww, [])) = [] then None
      else Some \<lparr>Msg = snd (runLoop errText ig checks (ww, []))\<rparr>)"
proof -
  have w: "warningText errText ig = (\<lambda>c. concat (map
            (\<lambda>w. [CHR 0x09] @ ''[WARNING '' @ Name c @ '']: '' @ errText w @ [CHR 0x0A])
            (fst (downgrade ig (Name c) (Check c)))))"
    by (rule ext) (simp add: warningText_def warningLine_def)
  have e: "errorText errText ig = (\<lambda>c. concat (map
            (\<lambda>i. [CHR 0x09] @ ''[ERROR '' @ Name c @ '']: '' @ errText i @ [CHR 0x0A])
            (snd (downgrade ig (Name c) (Check c)))))"
    by (rule ext) (simp add: errorText_def errorLine_def)
  have "snd (RunChecks errText checks ww ig) = ww @ concat (map (warningText errText ig) checks)"
    by (simp add: RunChecks_eq)
  moreover have "snd (runLoop errText ig checks (ww, [])) = concat (map (errorText errText ig) checks)"
    by (simp add: runLoop_eq)
  moreover have "fst (RunChecks errText checks ww ig) =
     (if snd (runLoop errText ig checks (ww, [])) = [] then None
      else Some \<lparr>Msg = snd (runLoop errText ig checks (ww, []))\<rparr>)"
    by (simp add: RunChecks_eq runLoop_eq)
  ultimately show ?thesis
    unfolding w e by blast
qed

theorem RunChecks_lines_witness:
  "snd (RunChecks id
        [\<lparr>Name = ''A'', Check = ([''w1'', ''w2''], [''e1''])\<rparr>,
         \<lparr>Name = ''B'', Check = ([''w3''], [''e2'', ''e3''])\<rparr>] ''>'' {''a''}) =
     ''>'' @ [CHR 0x09] @ ''[WARNING A]: w1'' @ [CHR 0x0A]
           @ [CHR 0x09] @ ''[WARNING A]: w2'' @ [CHR 0x0A]
           @ [CHR 0x09] @ ''[WARNING A]: e1'' @ [CHR 0x0A]
           @ [CHR 0x09] @ ''[WARNING B]: w3'' @ [CHR 0x0A]
   \<and> fst (RunChecks id
        [\<lparr>Name = ''A'', Check = ([''w1'', ''w2''], [''e1''])\<rparr>,
         \<lparr>Name = ''B'', Check = ([''w3''], [''e2'', ''e3''])\<rparr>] ''>'' {''a''}) =
     Some \<lparr>Msg = [CHR 0x09] @ ''[ERROR B]: e2'' @ [CHR 0x0A]
                 @ [CHR 0x09] @ ''[ERROR B]: e3'' @ [CHR 0x0A]\<rparr>"
proof -
  have a: "setHasItemOrAll {''a''} ''A''" and b: "\<not> setHasItemOrAll {''a''} ''B''"
    by code_simp+
  show ?thesis
    using RunChecks_lines [of id
        "[\<lparr>Name = ''A'', Check = ([''w1'', ''w2''], [''e1''])\<rparr>,
          \<lparr>Name = ''B'', Check = ([''w3''], [''e2'', ''e3''])\<rparr>]" "''>''" "{''a''}"]
    by (simp add: downgrade_def a b)
qed

text \<open>
  C7. When at least one error is left after the downgrade, RunChecks returns an error
  whose \<open>Error()\<close> text is the line \<open>[preflight] Some fatal errors occurred:\<close>, then
  the whole buffer (one \<open>\t[ERROR name]: message\<close> line for each error left, under the
  name of its check), then the fixed hint about \<open>--ignore-preflight-errors\<close>.
\<close>

theorem RunChecks_error_text:
  assumes "\<exists>c \<in> set checks. snd (downgrade ig (Name c) (Check c)) \<noteq> []"
  shows "\<exists>e. fst (RunChecks errText checks ww ig) = Some e \<and>
     Error_Error e =
       ''[preflight] Some fatal errors occurred:'' @ [CHR 0x0A]
       @ concat (map (\<lambda>c. concat (map
            (\<lambda>i. [CHR 0x09] @ ''[ERROR '' @ Name c @ '']: '' @ errText i @ [CHR 0x0A])
            (snd (downgrade ig (Name c) (Check c))))) checks)
       @ ''[preflight] If you know what you are doing, you can make a check non-fatal with `--ignore-preflight-errors=...`''"
proof -
  have e: "errorText errText ig = (\<lambda>c. concat (map
            (\<lambda>i. [CHR 0x09] @ ''[ERROR '' @ Name c @ '']: '' @ errText i @ [CHR 0x0A])
            (snd (downgrade ig (Name c) (Check c)))))"
    by (rule ext) (simp add: errorText_def errorLine_def)
  from assms have "\<exists>c \<in> set checks. errorText errText ig c \<noteq> []"
    by (simp add: errorText_empty_iff)
  then have "concat (map (errorText errText ig) checks) \<noteq> []"
    by simp
  then have "fst (RunChecks errText checks ww ig) =
      Some \<lparr>Msg = concat (map (errorText errText ig) checks)\<rparr>"
    by (simp add: RunChecks_eq)
  then show ?thesis
    unfolding e by (simp add: Error_Error_def)
qed

theorem RunChecks_error_text_witness:
  "\<exists>e. fst (RunChecks id
          [\<lparr>Name = ''A'', Check = ([], [])\<rparr>,
           \<lparr>Name = ''Port-10250'', Check = ([], [''Port 10250 is in use''])\<rparr>] [] {}) = Some e \<and>
     Error_Error e =
       ''[preflight] Some fatal errors occurred:'' @ [CHR 0x0A]
       @ [CHR 0x09] @ ''[ERROR Port-10250]: Port 10250 is in use'' @ [CHR 0x0A]
       @ ''[preflight] If you know what you are doing, you can make a check non-fatal with `--ignore-preflight-errors=...`''"
proof -
  have h: "\<exists>c \<in> set [\<lparr>Name = ''A'', Check = ([], [])\<rparr>,
           \<lparr>Name = ''Port-10250'', Check = ([], [''Port 10250 is in use''])\<rparr>].
        snd (downgrade {} (Name c) (Check c)) \<noteq> ([] :: string list)"
    by (simp add: downgrade_def setHasItemOrAll_def)
  show ?thesis
    using RunChecks_error_text [OF h, of id "[]"]
    by (simp add: downgrade_def setHasItemOrAll_def)
qed

text \<open>
  C8. When every check returns no warnings and no errors, RunChecks returns nil and
  writes nothing to the writer, whatever the ignore set holds.
\<close>

theorem RunChecks_no_findings:
  assumes "\<forall>c \<in> set checks. Check c = ([], [])"
  shows "RunChecks errText checks ww ig = (None, ww)"
proof -
  have "warningText errText ig c = [] \<and> errorText errText ig c = []" if "c \<in> set checks" for c
    using assms that by (simp add: warningText_def errorText_def downgrade_def)
  then show ?thesis
    by (simp add: RunChecks_eq)
qed

theorem RunChecks_no_findings_witness:
  "RunChecks id [\<lparr>Name = ''Swap'', Check = ([], [])\<rparr>, \<lparr>Name = ''NumCPU'', Check = ([], [])\<rparr>]
     ''sink'' {''all'', ''swap''} = (None, ''sink'')"
proof -
  have h: "\<forall>c \<in> set [\<lparr>Name = ''Swap'', Check = ([], [])\<rparr>, \<lparr>Name = ''NumCPU'', Check = ([], [])\<rparr>].
      Check c = (([], []) :: string list \<times> string list)"
    by simp
  show ?thesis
    using RunChecks_no_findings [OF h, of id "''sink''" "{''all'', ''swap''}"] .
qed



section \<open>Properties of the checks\<close>

subsection \<open>ServiceCheck and FirewalldCheck without an init system\<close>

text \<open>
  C6, as the claim states it, fails: when no supported init system is detected, the
  errors sequence of ServiceCheck and of FirewalldCheck is empty, and the error of the
  detection is in the warnings.
\<close>

theorem no_init_system_counterexample:
  "snd (ServiceCheck_Check (Inl (New ''no supported init system detected''))
          \<lparr>Service = ''kubelet'', CheckIfActive = True\<rparr>) = []
   \<and> fst (ServiceCheck_Check (Inl (New ''no supported init system detected''))
          \<lparr>Service = ''kubelet'', CheckIfActive = True\<rparr>)
       = [New ''no supported init system detected'']
   \<and> snd (FirewalldCheck_Check (Inl (New ''no supported init system detected''))
          \<lparr>ports = [6443, 10250]\<rparr>) = []
   \<and> fst (FirewalldCheck_Check (Inl (New ''no supported init system detected''))
          \<lparr>ports = [6443, 10250]\<rparr>)
       = [New ''no supported init system detected'']"
  by (simp add: ServiceCheck_Check_def FirewalldCheck_Check_def)

text \<open>
  C6, amended. When ServiceCheck.Check or FirewalldCheck.Check cannot detect a
  supported init system, the check is not skipped in silence: it returns the error of
  the detection as its one warning, and its errors sequence is empty. A run of such a
  check alone writes that one warning line and returns nil, under every ignore set.
\<close>

theorem no_init_system_is_warning:
  "ServiceCheck_Check (Inl err) sc = ([err], [])
   \<and> FirewalldCheck_Check (Inl err) fc = ([err], [])
   \<and> RunChecks errText [\<lparr>Name = n, Check = ServiceCheck_Check (Inl err) sc\<rparr>] ww ig
       = (None, ww @ warningLine n (errText err))
   \<and> RunChecks errText [\<lparr>Name = n, Check = FirewalldCheck_Check (Inl err) fc\<rparr>] ww ig
       = (None, ww @ warningLine n (errText err))"
proof -
  have s: "ServiceCheck_Check (Inl err) sc = ([err], [])"
    by (simp add: ServiceCheck_Check_def)
  have f: "FirewalldCheck_Check (Inl err) fc = ([err], [])"
    by (simp add: FirewalldCheck_Check_def)
  have d: "downgrade ig n ([err], []) = ([err], [])"
    by (simp add: downgrade_def)
  have "RunChecks errText [\<lparr>Name = n, Check = ([err], [])\<rparr>] ww ig
      = (None, ww @ warningLine n (errText err))"
    by (simp add: RunChecks_eq warningText_def errorText_def d)
  with s f show ?thesis
    by simp
qed

theorem no_init_system_is_warning_witness:
  "ServiceCheck_Check (Inl (New ''no init system'')) \<lparr>Service = ''docker'', CheckIfActive = False\<rparr>
     = ([New ''no init system''], [])
   \<and> RunChecks (\<lambda>e. ''no init system'')
        [\<lparr>Name = ''Firewalld'',
          Check = FirewalldCheck_Check (Inl (New ''no init system'')) \<lparr>ports = [6443]\<rparr>\<rparr>] [] {}
     = (None, [CHR 0x09] @ ''[WARNING Firewalld]: no init system'' @ [CHR 0x0A])"
proof -
  note inst = no_init_system_is_warning [of "New ''no init system''"
      "\<lparr>Service = ''docker'', CheckIfActive = False\<rparr>" "\<lparr>ports = [6443]\<rparr>"
      "\<lambda>e. ''no init system''" "''Firewalld''" "[]" "{}"]
  from inst have a: "ServiceCheck_Check (Inl (New ''no init system''))
      \<lparr>Service = ''docker'', CheckIfActive = False\<rparr> = ([New ''no init system''], [])"
    by blast
  from inst have b: "RunChecks (\<lambda>e. ''no init system'')
        [\<lparr>Name = ''Firewalld'',
          Check = FirewalldCheck_Check (Inl (New ''no init system'')) \<lparr>ports = [6443]\<rparr>\<rparr>] [] {}
     = (None, [] @ warningLine ''Firewalld'' ''no init system'')"
    by blast
  show ?thesis
    unfolding a b by (simp add: warningLine_def)
qed

subsection \<open>FileContentCheck\<close>

lemma FileContentCheck_no_warnings: "fst (FileContentCheck_Check Open fcc) = []"
  by (simp add: FileContentCheck_Check_def split: sum.splits)

lemma copyLimited_readable:
  "fault f = None \<Longrightarrow> copyLimited f n = Inr (take n (data f))"
  by (simp add: copyLimited_def)

lemma copyLimited_Inr:
  "copyLimited f n = Inr buf \<Longrightarrow> buf = take n (data f)"
  by (auto simp add: copyLimited_def split: option.splits if_splits)

text \<open>
  C10. FileContentCheck.Check compares the first \<open>len(Content)\<close> bytes of the file
  with \<open>Content\<close>: a readable file that starts with \<open>Content\<close> gives no warnings and no
  errors, whatever bytes follow; the check never warns, and it reports an error exactly
  when the file cannot be opened, or cannot be read, or those first bytes differ from
  \<open>Content\<close>.
\<close>

theorem FileContentCheck_prefix:
  "(Open (Path fcc) = Inr f \<and> fault f = None \<and> data f = Content fcc @ extra \<longrightarrow>
      FileContentCheck_Check Open fcc = ([], []))
   \<and> fst (FileContentCheck_Check Open fcc) = []
   \<and> (snd (FileContentCheck_Check Open fcc) \<noteq> [] \<longleftrightarrow>
        (\<exists>err. Open (Path fcc) = Inl err)
        \<or> (\<exists>g err. Open (Path fcc) = Inr g \<and> copyLimited g (length (Content fcc)) = Inl err)
        \<or> (\<exists>g buf. Open (Path fcc) = Inr g \<and> copyLimited g (length (Content fcc)) = Inr buf
              \<and> take (length (Content fcc)) (data g) \<noteq> Content fcc))"
proof -
  have a: "FileContentCheck_Check Open fcc = ([], [])"
    if "Open (Path fcc) = Inr f" "fault f = None" "data f = Content fcc @ extra"
    using that by (simp add: FileContentCheck_Check_def copyLimited_readable)
  have c: "snd (FileContentCheck_Check Open fcc) \<noteq> [] \<longleftrightarrow>
        (\<exists>err. Open (Path fcc) = Inl err)
        \<or> (\<exists>g err. Open (Path fcc) = Inr g \<and> copyLimited g (length (Content fcc)) = Inl err)
        \<or> (\<exists>g buf. Open (Path fcc) = Inr g \<and> copyLimited g (length (Content fcc)) = Inr buf
              \<and> take (length (Content fcc)) (data g) \<noteq> Content fcc)"
  proof (cases "Open (Path fcc)")
    case (Inl err)
    then show ?thesis
      by (simp add: FileContentCheck_Check_def)
  next
    case (Inr g)
    show ?thesis
    proof (cases "copyLimited g (length (Content fcc))")
      case (Inl err)
      with Inr show ?thesis
        by (simp add: FileContentCheck_Check_def)
    next
      case r: (Inr buf)
      then have "buf = take (length (Content fcc)) (data g)"
        by (rule copyLimited_Inr)
      with Inr r show ?thesis
        by (simp add: FileContentCheck_Check_def)
    qed
  qed
  from a c FileContentCheck_no_warnings show ?thesis
    by blast
qed

theorem FileContentCheck_prefix_witness:
  "FileContentCheck_Check
     (\<lambda>p. if p = ''/proc/sys/net/ipv4/ip_forward''
          then Inr \<lparr>data = ''1'' @ [CHR 0x0A], fault = None\<rparr> else Inl (New ''no such file''))
     \<lparr>Path = ''/proc/sys/net/ipv4/ip_forward'', Content = ''1''\<rparr> = ([], [])
   \<and> snd (FileContentCheck_Check
     (\<lambda>p. if p = ''/proc/sys/net/ipv4/ip_forward''
          then Inr \<lparr>data = ''0'' @ [CHR 0x0A], fault = None\<rparr> else Inl (New ''no such file''))
     \<lparr>Path = ''/proc/sys/net/ipv4/ip_forward'', Content = ''1''\<rparr>) \<noteq> []"
proof -
  let ?fcc = "\<lparr>Path = ''/proc/sys/net/ipv4/ip_forward'', Content = ''1''\<rparr>"
  let ?open1 = "\<lambda>p. if p = ''/proc/sys/net/ipv4/ip_forward''
          then Inr \<lparr>data = ''1'' @ [CHR 0x0A], fault = None\<rparr> else Inl (New ''no such file'')"
  let ?open0 = "\<lambda>p. if p = ''/proc/sys/net/ipv4/ip_forward''
          then Inr \<lparr>data = ''0'' @ [CHR 0x0A], fault = None\<rparr> else Inl (New ''no such file'')"
  have 1: "FileContentCheck_Check ?open1 ?fcc = ([], [])"
    using FileContentCheck_prefix [of ?open1 ?fcc "\<lparr>data = ''1'' @ [CHR 0x0A], fault = None\<rparr>"
        "[CHR 0x0A]"]
    by simp
  have "\<exists>g buf. ?open0 (Path ?fcc) = Inr g \<and> copyLimited g (length (Content ?fcc)) = Inr buf
          \<and> take (length (Content ?fcc)) (data g) \<noteq> Content ?fcc"
    by (simp add: copyLimited_def)
  then have 2: "snd (FileContentCheck_Check ?open0 ?fcc) \<noteq> []"
    using FileContentCheck_prefix [of ?open0 ?fcc "\<lparr>data = ''0'' @ [CHR 0x0A], fault = None\<rparr>" "[]"]
    by blast
  from 1 2 show ?thesis
    by blast
qed

subsection \<open>ImagePullCheck\<close>

lemma pullImage_eq:
  "pullImage rt img errorList r =
     (errorList @ pullFindings img (fst (PullImage rt img r)), snd (PullImage rt img r))"
  by (simp add: pullImage_def pullFindings_def split: prod.splits option.splits)

lemma checkImages_known:
  assumes "policy = PullNever \<or> policy = PullIfNotPresent \<or> policy = PullAlways"
  shows "checkImages rt policy images errorList r =
     (([], errorList @ fst (claimedImageRun rt policy images r)),
      snd (claimedImageRun rt policy images r))"
proof (induction images arbitrary: errorList r)
  case Nil
  show ?case by simp
next
  case (Cons img images)
  consider (never) "policy = PullNever"
    | (ifnot) "policy \<noteq> PullNever" "policy = PullIfNotPresent"
    | (always) "policy \<noteq> PullNever" "policy \<noteq> PullIfNotPresent" "policy = PullAlways"
    using assms by blast
  then show ?case
  proof cases
    case never
    with Cons.IH show ?thesis
      by (simp add: claimedImageStep_def Let_def)
  next
    case ifnot
    obtain ret err r1 where q: "ImageExists rt img r = ((ret, err), r1)"
      by (metis prod.exhaust)
    show ?thesis
    proof (cases "ret \<and> err = None")
      case True
      with ifnot q Cons.IH show ?thesis
        by (simp add: claimedImageStep_def Let_def)
    next
      case False
      with ifnot q Cons.IH show ?thesis
        by (cases err)
           (simp_all add: claimedImageStep_def Let_def pullImage_eq existsFindings_def)
    qed
  next
    case always
    with Cons.IH show ?thesis
      by (simp add: claimedImageStep_def Let_def pullImage_eq)
  qed
qed

lemma claimedImageRun_never: "claimedImageRun rt PullNever images r = ([], r)"
  by (induction images) (simp_all add: claimedImageStep_def)

lemma checkImages_unknown:
  assumes "policy \<noteq> PullNever" "policy \<noteq> PullIfNotPresent" "policy \<noteq> PullAlways"
  shows "checkImages rt policy (img # images) errorList r =
     (([], errorList @ [Errorf ''unsupported pull policy %q'' [AStr policy]]), r)"
  using assms by simp

text \<open>
  C4. ImagePullCheck.Check goes through its image list in order. Under one of the
  three policies its errors are, image after image, the findings of
  \<open>claimedImageStep\<close>: none under PullNever, which calls nothing; under
  PullIfNotPresent none when the existence query succeeded and reported the image
  present, otherwise the error of a failed query and then the error of a failed pull;
  under PullAlways the error of a failed pull. Under any other policy the first image
  stops the loop: one error is added, the images that are left are not looked at and
  the runtime is not called. (With an empty image list the loop body never runs and
  nothing is returned, whatever the policy.)
\<close>

theorem ImagePullCheck_policies:
  "(imagePullPolicy ipc = PullNever \<or> imagePullPolicy ipc = PullIfNotPresent
      \<or> imagePullPolicy ipc = PullAlways \<longrightarrow>
      ImagePullCheck_Check ipc r =
        (([], fst (claimedImageRun (runtime ipc) (imagePullPolicy ipc) (imageList ipc) r)),
         snd (claimedImageRun (runtime ipc) (imagePullPolicy ipc) (imageList ipc) r)))
   \<and> (imagePullPolicy ipc = PullNever \<longrightarrow> ImagePullCheck_Check ipc r = (([], []), r))
   \<and> (policy \<noteq> PullNever \<and> policy \<noteq> PullIfNotPresent \<and> policy \<noteq> PullAlways \<longrightarrow>
        checkImages rt policy (img # images) errorList r' =
          (([], errorList @ [Errorf ''unsupported pull policy %q'' [AStr policy]]), r'))
   \<and> (imagePullPolicy ipc \<noteq> PullNever \<and> imagePullPolicy ipc \<noteq> PullIfNotPresent
        \<and> imagePullPolicy ipc \<noteq> PullAlways \<and> imageList ipc \<noteq> [] \<longrightarrow>
        ImagePullCheck_Check ipc r =
          (([], [Errorf ''unsupported pull policy %q'' [AStr (imagePullPolicy ipc)]]), r))
   \<and> (imageList ipc = [] \<longrightarrow> ImagePullCheck_Check ipc r = (([], []), r))"
proof -
  have a: "ImagePullCheck_Check ipc r =
        (([], fst (claimedImageRun (runtime ipc) (imagePullPolicy ipc) (imageList ipc) r)),
         snd (claimedImageRun (runtime ipc) (imagePullPolicy ipc) (imageList ipc) r))"
    if "imagePullPolicy ipc = PullNever \<or> imagePullPolicy ipc = PullIfNotPresent
      \<or> imagePullPolicy ipc = PullAlways"
    using checkImages_known [OF that, of "runtime ipc" "imageList ipc" "[]" r]
    by (simp add: ImagePullCheck_Check_def)
  have b: "ImagePullCheck_Check ipc r = (([], []), r)" if "imagePullPolicy ipc = PullNever"
    using a that by (simp add: claimedImageRun_never)
  have c: "checkImages rt policy (img # images) errorList r' =
          (([], errorList @ [Errorf ''unsupported pull policy %q'' [AStr policy]]), r')"
    if "policy \<noteq> PullNever \<and> policy \<noteq> PullIfNotPresent \<and> policy \<noteq> PullAlways"
    using that by (simp add: checkImages_unknown)
  have d: "ImagePullCheck_Check ipc r =
          (([], [Errorf ''unsupported pull policy %q'' [AStr (imagePullPolicy ipc)]]), r)"
    if "imagePullPolicy ipc \<noteq> PullNever \<and> imagePullPolicy ipc \<noteq> PullIfNotPresent
        \<and> imagePullPolicy ipc \<noteq> PullAlways \<and> imageList ipc \<noteq> []"
  proof -
    from that obtain i rest where "imageList ipc = i # rest"
      by (cases "imageList ipc") auto
    with that show ?thesis
      by (simp add: ImagePullCheck_Check_def checkImages_unknown)
  qed
  have e: "ImagePullCheck_Check ipc r = (([], []), r)" if "imageList ipc = []"
    using that by (simp add: ImagePullCheck_Check_def)
  from a b c d e show ?thesis
    by blast
qed

text \<open>
  The witness runs the check on the images \<open>a\<close> and \<open>b\<close>, with a runtime that has
  \<open>a\<close> only and fails to pull; the state of the runtime is the list of the calls made.
\<close>

theorem ImagePullCheck_policies_witness:
  "ImagePullCheck_Check
     \<lparr>runtime = \<lparr>ImageExists = (\<lambda>i r. ((i = ''a'', None), r @ [''exists '' @ i])),
                 PullImage = (\<lambda>i r. (Some (New ''pull failed''), r @ [''pull '' @ i]))\<rparr>,
      imageList = [''a'', ''b''], imagePullPolicy = PullIfNotPresent\<rparr> []
     = (([], [Wrapf (New ''pull failed'') ''failed to pull image %s'' [AStr ''b'']]),
        [''exists a'', ''exists b'', ''pull b''])
   \<and> ImagePullCheck_Check
     \<lparr>runtime = \<lparr>ImageExists = (\<lambda>i r. ((i = ''a'', None), r @ [''exists '' @ i])),
                 PullImage = (\<lambda>i r. (Some (New ''pull failed''), r @ [''pull '' @ i]))\<rparr>,
      imageList = [''a'', ''b''], imagePullPolicy = ''Sometimes''\<rparr> []
     = (([], [Errorf ''unsupported pull policy %q'' [AStr ''Sometimes'']]), [])"
proof -
  define rt where "rt = \<lparr>ImageExists = (\<lambda>i r. ((i = ''a'', None), r @ [''exists '' @ i])),
              PullImage = (\<lambda>i r. (Some (New ''pull failed''), r @ [''pull '' @ i :: string]))\<rparr>"
  have run: "claimedImageRun rt PullIfNotPresent [''a'', ''b''] []
      = ([Wrapf (New ''pull failed'') ''failed to pull image %s'' [AStr ''b'']],
         [''exists a'', ''exists b'', ''pull b''])"
    by (simp add: rt_def claimedImageStep_def Let_def existsFindings_def pullFindings_def
        PullNever_def PullIfNotPresent_def)
  have 1: "ImagePullCheck_Check
      \<lparr>runtime = rt, imageList = [''a'', ''b''], imagePullPolicy = PullIfNotPresent\<rparr> [] =
      (([], [Wrapf (New ''pull failed'') ''failed to pull image %s'' [AStr ''b'']]),
       [''exists a'', ''exists b'', ''pull b''])"
    using ImagePullCheck_policies
      [where ipc = "\<lparr>runtime = rt, imageList = [''a'', ''b''], imagePullPolicy = PullIfNotPresent\<rparr>"
         and r = "[]"]
    by (simp add: run del: claimedImageRun.simps)
  have 2: "ImagePullCheck_Check
      \<lparr>runtime = rt, imageList = [''a'', ''b''], imagePullPolicy = ''Sometimes''\<rparr> [] =
      (([], [Errorf ''unsupported pull policy %q'' [AStr ''Sometimes'']]), [])"
    using ImagePullCheck_policies
      [where ipc = "\<lparr>runtime = rt, imageList = [''a'', ''b''], imagePullPolicy = ''Sometimes''\<rparr>"
         and r = "[]"]
    by (simp add: PullNever_def PullIfNotPresent_def PullAlways_def)
  from 1 2 show ?thesis
    unfolding rt_def by blast
qed

subsection \<open>KubernetesVersionCheck\<close>














lemma splitOn_no_sep: "sep \<notin> set xs \<Longrightarrow> splitOn sep xs = [xs]"
  by (induction xs) auto


























end
